theory Spec2Isabelle
  imports Main "HOL-Library.Word"
begin

unbundle bit_operations_syntax

section \<open>Values, errors and the wire encoding\<close>

text \<open>
  The payload is a sequence of bytes. Go's \<open>uint16\<close>, \<open>uint64\<close> and \<open>int64\<close> are
  machine words; an \<open>int64\<close> is the 64-bit word read in two's complement, and a
  \<open>float64\<close> is carried as its IEEE 754 bit pattern, which is what
  \<open>encoding/binary\<close> puts on the wire (\<open>math.Float64bits\<close>).
\<close>

type_synonym byte = "8 word"
type_synonym uint16 = "16 word"
type_synonym uint64 = "64 word"
type_synonym int64 = "64 word"
type_synonym float64 = "64 word"

text \<open>
  errors.go, together with the two errors of package \<open>io\<close> that a read from a
  \<open>bytes.Buffer\<close> can produce and the errors of the socket.
\<close>

datatype error =
    ErrOverflow
  | ErrClosedWriter
  | ErrClosedReader
  | EOF
  | ErrUnexpectedEOF
  | NetError string

text \<open>A panic of the Go runtime: an explicit \<open>panic(msg)\<close> or a nil dereference.\<close>

datatype panic = Panic string | NilDereference

text \<open>\<open>const MaxPayload uint16 = math.MaxUint16 - 8 - 20\<close>\<close>

definition MaxPayload :: uint16 where
  "MaxPayload = 65535 - 8 - 20"

text \<open>\<open>binary.BigEndian\<close>: most significant byte first.\<close>

definition be16 :: "uint16 \<Rightarrow> byte list" where
  "be16 v = [ucast (drop_bit 8 v), ucast v]"

definition be64 :: "uint64 \<Rightarrow> byte list" where
  "be64 v = [ucast (drop_bit 56 v), ucast (drop_bit 48 v), ucast (drop_bit 40 v),
             ucast (drop_bit 32 v), ucast (drop_bit 24 v), ucast (drop_bit 16 v),
             ucast (drop_bit 8 v), ucast v]"

definition dec16 :: "byte list \<Rightarrow> uint16" where
  "dec16 bs = foldl (\<lambda>a b. push_bit 8 a OR ucast b) 0 bs"

definition dec64 :: "byte list \<Rightarrow> uint64" where
  "dec64 bs = foldl (\<lambda>a b. push_bit 8 a OR ucast b) 0 bs"

section \<open>The byte buffer\<close>

text \<open>
  Go's \<open>bytes.Buffer\<close>: the slice \<open>buf\<close> (its length is the write position), the read
  offset \<open>off\<close>, and the capacity of the slice's storage. A nil slice has capacity 0.
\<close>

record Buffer =
  buf :: "byte list"
  off :: nat
  capacity :: nat

definition Len :: "Buffer \<Rightarrow> nat" where
  "Len b = length (buf b) - off b"

definition Cap :: "Buffer \<Rightarrow> nat" where
  "Cap b = capacity b"

definition Bytes :: "Buffer \<Rightarrow> byte list" where
  "Bytes b = drop (off b) (buf b)"

definition Reset :: "Buffer \<Rightarrow> Buffer" where
  "Reset b = b\<lparr>buf := [], off := 0\<rparr>"

text \<open>
  \<open>Truncate(n)\<close> keeps the first \<open>n\<close> unread bytes. Go panics when \<open>n\<close> exceeds
  \<open>Len\<close>; \<open>Receive\<close>, its only caller, passes a count bounded by the length of
  \<open>Bytes\<close>.
\<close>

definition Truncate :: "nat \<Rightarrow> Buffer \<Rightarrow> Buffer" where
  "Truncate n b = (if n = 0 then Reset b else b\<lparr>buf := take (off b + n) (buf b)\<rparr>)"

definition smallBufferSize :: nat where
  "smallBufferSize = 64"

text \<open>
  \<open>grow(n)\<close> makes room for \<open>n\<close> more bytes: by reslicing when the storage has room,
  by the small first allocation, by sliding the unread bytes to the front, or by a new
  allocation of at least twice the old capacity. The allocator may round a new
  allocation up; the model takes the size requested.
\<close>

definition grow :: "nat \<Rightarrow> Buffer \<Rightarrow> Buffer" where
  "grow n b0 =
     (let b = (if Len b0 = 0 \<and> off b0 \<noteq> 0 then Reset b0 else b0);
          m = Len b
      in if n \<le> capacity b - length (buf b) then b
         else if capacity b = 0 \<and> n \<le> smallBufferSize then b\<lparr>capacity := smallBufferSize\<rparr>
         else if int n \<le> int (capacity b div 2) - int m
           then b\<lparr>buf := Bytes b, off := 0\<rparr>
         else b\<lparr>buf := Bytes b, off := 0,
                capacity := max (m + (off b + n)) (2 * (capacity b - off b))\<rparr>)"

definition Grow :: "nat \<Rightarrow> Buffer \<Rightarrow> Buffer" where
  "Grow n b = grow n b"

text \<open>\<open>Buffer.Write(p)\<close> appends \<open>p\<close>, growing as needed; its error is always nil.\<close>

definition BufWrite :: "byte list \<Rightarrow> Buffer \<Rightarrow> Buffer" where
  "BufWrite p b = (let b' = grow (length p) b in b'\<lparr>buf := buf b' @ p\<rparr>)"

text \<open>
  \<open>Buffer.Read(p)\<close> with \<open>len(p) = n\<close>: the bytes copied, the error and the buffer
  afterwards. An empty buffer is reset and answers \<open>io.EOF\<close>, unless \<open>n = 0\<close>.
\<close>

definition BufRead :: "nat \<Rightarrow> Buffer \<Rightarrow> byte list \<times> error option \<times> Buffer" where
  "BufRead n b =
     (if length (buf b) \<le> off b
      then (if n = 0 then ([], None, Reset b) else ([], Some EOF, Reset b))
      else (let k = min n (Len b)
            in (take k (Bytes b), None, b\<lparr>off := off b + k\<rparr>)))"

text \<open>
  The loop of \<open>io.ReadAtLeast\<close>: read until \<open>n\<close> bytes have arrived or a read fails.
\<close>

function readLoop :: "nat \<Rightarrow> byte list \<Rightarrow> Buffer \<Rightarrow> byte list \<times> error option \<times> Buffer" where
  "readLoop n got b =
     (if n \<le> length got then (got, None, b)
      else (case BufRead (n - length got) b of
              (p, Some e, b') \<Rightarrow> (got @ p, Some e, b')
            | (p, None, b') \<Rightarrow> readLoop n (got @ p) b'))"
  by pat_completeness auto
termination
  apply (relation "measure (\<lambda>(n, got, b). n - length got)")
   apply simp
  apply (auto simp: BufRead_def Let_def Len_def Bytes_def split: if_splits)
  done

text \<open>\<open>io.ReadFull\<close> into a fresh slice of \<open>n\<close> bytes.\<close>

definition ReadFull :: "nat \<Rightarrow> Buffer \<Rightarrow> byte list \<times> error option \<times> Buffer" where
  "ReadFull n b =
     (case readLoop n [] b of
        (got, e, b') \<Rightarrow>
          if n \<le> length got then (got, None, b')
          else if 0 < length got \<and> e = Some EOF then (got, Some ErrUnexpectedEOF, b')
          else (got, e, b'))"

text \<open>
  \<open>binary.Read(r, binary.BigEndian, &v)\<close> for a 2-byte and an 8-byte value: \<open>v\<close> keeps
  its zero value when the read fails.
\<close>

definition binaryRead16 :: "Buffer \<Rightarrow> uint16 \<times> error option \<times> Buffer" where
  "binaryRead16 b =
     (case ReadFull 2 b of
        (bs, Some e, b') \<Rightarrow> (0, Some e, b')
      | (bs, None, b') \<Rightarrow> (dec16 bs, None, b'))"

definition binaryRead64 :: "Buffer \<Rightarrow> uint64 \<times> error option \<times> Buffer" where
  "binaryRead64 b =
     (case ReadFull 8 b of
        (bs, Some e, b') \<Rightarrow> (0, Some e, b')
      | (bs, None, b') \<Rightarrow> (dec64 bs, None, b'))"

section \<open>The writer (writer.go)\<close>

text \<open>A nil \<open>buffer\<close> is \<open>None\<close>.\<close>

record Writer =
  buffer :: "Buffer option"

text \<open>\<open>Remaining\<close> has no nil check: it dereferences the buffer.\<close>

definition Remaining :: "Writer \<Rightarrow> panic + int" where
  "Remaining w =
     (case Writer.buffer w of
        None \<Rightarrow> Inl NilDereference
      | Some b \<Rightarrow> Inr (int (Cap b) - int (Len b)))"

definition WriteUint16 :: "Writer \<Rightarrow> uint16 \<Rightarrow> error option \<times> Writer" where
  "WriteUint16 w v =
     (case Writer.buffer w of
        None \<Rightarrow> (Some ErrClosedWriter, w)
      | Some b \<Rightarrow>
          if Cap b < Len b + 2 then (Some ErrOverflow, w)
          else (None, w\<lparr>Writer.buffer := Some (BufWrite (be16 v) b)\<rparr>))"

definition WriteUint64 :: "Writer \<Rightarrow> uint64 \<Rightarrow> error option \<times> Writer" where
  "WriteUint64 w v =
     (case Writer.buffer w of
        None \<Rightarrow> (Some ErrClosedWriter, w)
      | Some b \<Rightarrow>
          if Cap b < Len b + 8 then (Some ErrOverflow, w)
          else (None, w\<lparr>Writer.buffer := Some (BufWrite (be64 v) b)\<rparr>))"

definition WriteInt64 :: "Writer \<Rightarrow> int64 \<Rightarrow> error option \<times> Writer" where
  "WriteInt64 w v =
     (case Writer.buffer w of
        None \<Rightarrow> (Some ErrClosedWriter, w)
      | Some b \<Rightarrow>
          if Cap b < Len b + 8 then (Some ErrOverflow, w)
          else (None, w\<lparr>Writer.buffer := Some (BufWrite (be64 v) b)\<rparr>))"

definition WriteFloat64 :: "Writer \<Rightarrow> float64 \<Rightarrow> error option \<times> Writer" where
  "WriteFloat64 w v =
     (case Writer.buffer w of
        None \<Rightarrow> (Some ErrClosedWriter, w)
      | Some b \<Rightarrow>
          if Cap b < Len b + 8 then (Some ErrOverflow, w)
          else (None, w\<lparr>Writer.buffer := Some (BufWrite (be64 v) b)\<rparr>))"

text \<open>
  \<open>Write\<close> compares the whole capacity with \<open>len(v)+2\<close>, converts the length to
  \<open>uint16\<close> (which truncates) and appends prefix and bytes.
\<close>

definition Write :: "Writer \<Rightarrow> byte list \<Rightarrow> error option \<times> Writer" where
  "Write w v =
     (case Writer.buffer w of
        None \<Rightarrow> (Some ErrClosedWriter, w)
      | Some b \<Rightarrow>
          if Cap b < length v + 2 then (Some ErrOverflow, w)
          else (let len16 = (of_nat (length v) :: uint16)
                in (None, w\<lparr>Writer.buffer := Some (BufWrite v (BufWrite (be16 len16) b))\<rparr>)))"

section \<open>The reader (reader.go)\<close>

text \<open>
  The reader's back-reference to its endpoint is only used by \<open>Close\<close>, which takes
  the endpoint as an argument here and returns it updated.
\<close>

record Reader =
  buffer :: "Buffer option"

definition ReadUint16 :: "Reader \<Rightarrow> uint16 \<times> error option \<times> Reader" where
  "ReadUint16 r =
     (case Reader.buffer r of
        None \<Rightarrow> (0, Some ErrClosedReader, r)
      | Some b \<Rightarrow>
          (case binaryRead16 b of (v, e, b') \<Rightarrow> (v, e, r\<lparr>Reader.buffer := Some b'\<rparr>)))"

definition ReadUint64 :: "Reader \<Rightarrow> uint64 \<times> error option \<times> Reader" where
  "ReadUint64 r =
     (case Reader.buffer r of
        None \<Rightarrow> (0, Some ErrClosedReader, r)
      | Some b \<Rightarrow>
          (case binaryRead64 b of (v, e, b') \<Rightarrow> (v, e, r\<lparr>Reader.buffer := Some b'\<rparr>)))"

definition ReadInt64 :: "Reader \<Rightarrow> int64 \<times> error option \<times> Reader" where
  "ReadInt64 r =
     (case Reader.buffer r of
        None \<Rightarrow> (0, Some ErrClosedReader, r)
      | Some b \<Rightarrow>
          (case binaryRead64 b of (v, e, b') \<Rightarrow> (v, e, r\<lparr>Reader.buffer := Some b'\<rparr>)))"

definition ReadFloat64 :: "Reader \<Rightarrow> float64 \<times> error option \<times> Reader" where
  "ReadFloat64 r =
     (case Reader.buffer r of
        None \<Rightarrow> (0, Some ErrClosedReader, r)
      | Some b \<Rightarrow>
          (case binaryRead64 b of (v, e, b') \<Rightarrow> (v, e, r\<lparr>Reader.buffer := Some b'\<rparr>)))"

text \<open>
  \<open>Read\<close>: the length prefix, the bound \<open>MaxPayload\<close>, then a single
  \<open>Buffer.Read\<close> into a zeroed slice of the declared length. The count that
  \<open>Buffer.Read\<close> returns is dropped, so the slice keeps its zeros where nothing was
  copied. The result is nil (here the empty list) on the early returns.
\<close>

definition Read :: "Reader \<Rightarrow> byte list \<times> error option \<times> Reader" where
  "Read r =
     (case Reader.buffer r of
        None \<Rightarrow> ([], Some ErrClosedReader, r)
      | Some b \<Rightarrow>
          (case binaryRead16 b of
             (len16, Some e, b1) \<Rightarrow> ([], Some e, r\<lparr>Reader.buffer := Some b1\<rparr>)
           | (len16, None, b1) \<Rightarrow>
               if MaxPayload < len16
               then ([], Some ErrOverflow, r\<lparr>Reader.buffer := Some b1\<rparr>)
               else (case BufRead (unat len16) b1 of
                       (p, e, b2) \<Rightarrow>
                         (p @ replicate (unat len16 - length p) 0, e,
                          r\<lparr>Reader.buffer := Some b2\<rparr>))))"

section \<open>The pool\<close>

text \<open>
  Modelled from the spec: the generic pool of package \<open>github.com/gbkr-com/app\<close>, which
  is not part of this repository's sources. The spec gives its contract: acquiring never
  blocks and fabricates a fresh object when the pool is empty; releasing resets the
  object and keeps it, or discards it silently when the pool is already full.
\<close>

record 'a Pool =
  items :: "'a list"
  limit :: nat

definition NewPool :: "nat \<Rightarrow> 'a Pool" where
  "NewPool n = \<lparr>items = [], limit = n\<rparr>"

definition Next :: "'a \<Rightarrow> 'a Pool \<Rightarrow> 'a \<times> 'a Pool" where
  "Next factory pool =
     (case items pool of
        [] \<Rightarrow> (factory, pool)
      | x # xs \<Rightarrow> (x, pool\<lparr>items := xs\<rparr>))"

definition Recycle :: "('a \<Rightarrow> 'a) \<Rightarrow> 'a \<Rightarrow> 'a Pool \<Rightarrow> 'a Pool" where
  "Recycle reset x pool =
     (if length (items pool) < limit pool then pool\<lparr>items := reset x # items pool\<rparr>
      else pool)"

section \<open>Protocol and endpoint (protocol.go, endpoint.go)\<close>

record Protocol =
  Hash :: uint64
  Sequenced :: bool
  Payload :: uint16

type_synonym UDPAddr = string

text \<open>
  The endpoint without its socket: what the socket does is an argument of the
  operations that use it.
\<close>

record Endpoint =
  protocol :: Protocol
  sequence :: uint64
  zero :: "byte list"
  buffers :: "Buffer Pool"
  writers :: "Writer Pool"

text \<open>The factories and resets that \<open>NewEndpoint\<close> gives to its two pools.\<close>

definition newBuffer :: "Protocol \<Rightarrow> Buffer" where
  "newBuffer p = Grow (unat (Payload p)) \<lparr>buf = [], off = 0, capacity = 0\<rparr>"

definition newWriter :: Writer where
  "newWriter = \<lparr>Writer.buffer = None\<rparr>"

definition resetWriter :: "Writer \<Rightarrow> Writer" where
  "resetWriter w = w\<lparr>Writer.buffer := None\<rparr>"

text \<open>
  \<open>NewEndpoint\<close>: the panics in the order of the source, then the two calls into
  package \<open>net\<close>, whose errors are arguments (\<open>None\<close> when the call succeeds).
\<close>

definition NewEndpoint ::
  "Protocol option \<Rightarrow> int \<Rightarrow> int \<Rightarrow> error option \<Rightarrow> error option \<Rightarrow> panic + (error + Endpoint)" where
  "NewEndpoint popt port pool resolveErr listenErr =
     (case popt of
        None \<Rightarrow> Inl (Panic ''protocol'')
      | Some p \<Rightarrow>
          if Payload p = 0 \<or> MaxPayload < Payload p then Inl (Panic ''payload'')
          else if 0 < Hash p \<and> Payload p < 8 then Inl (Panic ''hash'')
          else if port < 0 then Inl (Panic ''port'')
          else if pool < 1 then Inl (Panic ''pool'')
          else (case resolveErr of
                  Some e \<Rightarrow> Inr (Inl e)
                | None \<Rightarrow>
                    (case listenErr of
                       Some e \<Rightarrow> Inr (Inl e)
                     | None \<Rightarrow>
                         Inr (Inr \<lparr>protocol = p, sequence = 0,
                                   zero = replicate (unat (Payload p)) 0,
                                   buffers = NewPool (nat pool),
                                   writers = NewPool (nat pool)\<rparr>))))"

definition LastSequence :: "Endpoint \<Rightarrow> uint64" where
  "LastSequence e = sequence e"

definition SetSequence :: "Endpoint \<Rightarrow> uint64 \<Rightarrow> Endpoint" where
  "SetSequence e s = e\<lparr>sequence := s\<rparr>"

definition incr :: "Endpoint \<Rightarrow> Endpoint" where
  "incr e = e\<lparr>sequence := sequence e + 1\<rparr>"

definition protocolWrite :: "Protocol \<Rightarrow> Writer \<Rightarrow> error option \<times> Writer" where
  "protocolWrite p w = WriteUint64 w (Hash p)"

definition protocolRead :: "Protocol \<Rightarrow> Reader \<Rightarrow> bool \<times> error option \<times> Reader" where
  "protocolRead p r =
     (case ReadUint64 r of
        (h, Some e, r') \<Rightarrow> (False, Some e, r')
      | (h, None, r') \<Rightarrow> if h \<noteq> Hash p then (False, None, r') else (True, None, r'))"

definition sequenceWrite :: "Endpoint \<Rightarrow> Writer \<Rightarrow> error option \<times> Endpoint \<times> Writer" where
  "sequenceWrite e w =
     (let e' = incr e
      in (case WriteUint64 w (LastSequence e') of (err, w') \<Rightarrow> (err, e', w')))"

definition sequenceRead :: "Endpoint \<Rightarrow> Reader \<Rightarrow> uint64 \<times> error option \<times> Reader" where
  "sequenceRead e r = ReadUint64 r"

text \<open>
  \<open>Endpoint.Writer\<close>: a writer and a buffer from the pools, then the header. The errors
  of the two header writes are dropped, as in the source.
\<close>

definition Endpoint_Writer :: "Endpoint \<Rightarrow> Writer \<times> Endpoint" where
  "Endpoint_Writer e =
     (case Next newWriter (writers e) of
        (w0, ws) \<Rightarrow>
          (case Next (newBuffer (protocol e)) (buffers e) of
             (b, bs) \<Rightarrow>
               (let e1 = e\<lparr>writers := ws, buffers := bs\<rparr>;
                    w1 = w0\<lparr>Writer.buffer := Some b\<rparr>;
                    w2 = (if 0 < Hash (protocol e1) then snd (protocolWrite (protocol e1) w1)
                          else w1)
                in if Sequenced (protocol e1)
                   then (case sequenceWrite e1 w2 of (err, e2, w3) \<Rightarrow> (w3, e2))
                   else (w2, e1))))"

text \<open>
  \<open>Send\<close>: \<open>deadlineErr\<close> is the result of \<open>SetWriteDeadline\<close> (asked only for a positive
  timeout), \<open>sendErr\<close> that of \<open>WriteToUDP\<close>. The result is the error, the bytes handed
  to the socket and the endpoint; buffer and writer are recycled on success only.
\<close>

definition Send ::
  "Endpoint \<Rightarrow> Writer \<Rightarrow> int \<Rightarrow> error option \<Rightarrow> error option \<Rightarrow>
     panic + (error option \<times> byte list option \<times> Endpoint)" where
  "Send e w timeout deadlineErr sendErr =
     (if 0 < timeout \<and> deadlineErr \<noteq> None then Inr (deadlineErr, None, e)
      else (case Writer.buffer w of
              None \<Rightarrow> Inl NilDereference
            | Some b \<Rightarrow>
                (case sendErr of
                   Some err \<Rightarrow> Inr (Some err, Some (Bytes b), e)
                 | None \<Rightarrow>
                     Inr (None, Some (Bytes b),
                          e\<lparr>buffers := Recycle Reset b (buffers e),
                            writers := Recycle resetWriter w (writers e)\<rparr>))))"

text \<open>
  \<open>Receive\<close>: \<open>deadlineErr\<close> is the result of \<open>SetReadDeadline\<close>, \<open>recv\<close> that of
  \<open>ReadFromUDP\<close>: an error, or the datagram and its sender. \<open>ReadFromUDP\<close> copies the
  datagram into the slice \<open>bx\<close>, which shares its storage with the buffer, and cuts it
  at the length of \<open>bx\<close>. The result is the reader, the address, the sequence number,
  the error and the endpoint.
\<close>

definition Receive ::
  "Endpoint \<Rightarrow> int \<Rightarrow> error option \<Rightarrow> error + (byte list \<times> UDPAddr) \<Rightarrow>
     Reader option \<times> UDPAddr option \<times> uint64 \<times> error option \<times> Endpoint" where
  "Receive e timeout deadlineErr recv =
     (if 0 < timeout \<and> deadlineErr \<noteq> None then (None, None, 0, deadlineErr, e)
      else (case Next (newBuffer (protocol e)) (buffers e) of
              (b0, bs) \<Rightarrow>
                (let e1 = e\<lparr>buffers := bs\<rparr>;
                     b1 = BufWrite (zero e1) b0;
                     bx = Bytes b1
                 in (case recv of
                       Inl err \<Rightarrow> (None, None, 0, Some err, e1)
                     | Inr (dg, a) \<Rightarrow>
                         (let n = min (length dg) (length bx);
                              b2 = b1\<lparr>buf := take (off b1) (buf b1) @ take n dg @ drop n bx\<rparr>;
                              b3 = Truncate n b2;
                              reader = \<lparr>Reader.buffer = Some b3\<rparr>
                          in (case (if 0 < Hash (protocol e1)
                                    then protocolRead (protocol e1) reader
                                    else (True, None, reader)) of
                                (ok, err, reader') \<Rightarrow>
                                  if err \<noteq> None \<or> \<not> ok then (None, None, 0, err, e1)
                                  else if Sequenced (protocol e1)
                                  then (case sequenceRead e1 reader' of
                                          (s, err', reader'') \<Rightarrow>
                                            (Some reader'', Some a, s, err', e1))
                                  else (Some reader', Some a, 0, None, e1)))))))"

text \<open>
  \<open>Reader.Close\<close>, with the reader's endpoint as an argument: the buffer goes back to
  the endpoint's pool and the reference is cleared.
\<close>

definition Close :: "Reader \<Rightarrow> Endpoint \<Rightarrow> error option \<times> Reader \<times> Endpoint" where
  "Close r e =
     (case Reader.buffer r of
        None \<Rightarrow> (Some ErrClosedReader, r, e)
      | Some b \<Rightarrow>
          (None, r\<lparr>Reader.buffer := None\<rparr>, e\<lparr>buffers := Recycle Reset b (buffers e)\<rparr>))"

section \<open>Theorems\<close>

lemma be_step:
  fixes v :: "'a::len word"
  shows "push_bit 8 (drop_bit (k + 8) v) OR ucast (ucast (drop_bit k v) :: byte) = drop_bit k v"
proof (rule bit_word_eqI)
  fix n assume n: "n < LENGTH('a)"
  show "bit (push_bit 8 (drop_bit (k + 8) v) OR ucast (ucast (drop_bit k v) :: byte)) n
        = bit (drop_bit k v) n"
  proof (cases "n < 8")
    case True
    then show ?thesis using n
      by (simp add: bit_or_iff bit_push_bit_iff bit_ucast_iff bit_drop_bit_eq)
  next
    case False
    then have "k + 8 + (n - 8) = k + n" by simp
    with False show ?thesis using n
      by (simp add: bit_or_iff bit_push_bit_iff bit_ucast_iff bit_drop_bit_eq)
  qed
qed

lemma be_top:
  fixes v :: "'a::len word"
  assumes "LENGTH('a) \<le> k + 8"
  shows "ucast (ucast (drop_bit k v) :: byte) = drop_bit k v"
proof -
  have "drop_bit (k + 8) v = 0" using assms
    by (intro bit_word_eqI) (simp add: bit_drop_bit_eq bit_imp_le_length)
  with be_step [of k v] show ?thesis by simp
qed

lemma dec16_be16: "dec16 (be16 v) = v"
  using be_step [of 0 v] be_top [of 8 v]
  by (simp add: dec16_def be16_def)

lemma dec64_be64: "dec64 (be64 v) = v"
  using be_top [of 56 v] be_step [of 48 v] be_step [of 40 v] be_step [of 32 v]
    be_step [of 24 v] be_step [of 16 v] be_step [of 8 v] be_step [of 0 v]
  by (simp add: dec64_def be64_def)

lemma length_be16 [simp]: "length (be16 v) = 2"
  by (simp add: be16_def)

lemma length_be64 [simp]: "length (be64 v) = 8"
  by (simp add: be64_def)

subsection \<open>Facts about the buffer\<close>

declare readLoop.simps [simp del]

lemma grow_Bytes: "Bytes (grow n b) = Bytes b"
  by (auto simp: grow_def Let_def Bytes_def Reset_def Len_def)

lemma grow_off_le: "off (grow n b) \<le> length (buf (grow n b))"
  by (auto simp: grow_def Let_def Bytes_def Reset_def Len_def)

lemma grow_Len: "Len (grow n b) = Len b"
  by (auto simp: grow_def Let_def Bytes_def Reset_def Len_def)

lemma Bytes_BufWrite: "Bytes (BufWrite p b) = Bytes b @ p"
  using grow_off_le [of "length p" b] grow_Bytes [of "length p" b]
  by (simp add: BufWrite_def Let_def Bytes_def)

lemma Len_BufWrite: "Len (BufWrite p b) = Len b + length p"
  using grow_off_le [of "length p" b] grow_Len [of "length p" b]
  by (simp add: BufWrite_def Let_def Len_def)

lemma off_le_BufWrite: "off (BufWrite p b) \<le> length (buf (BufWrite p b))"
  using grow_off_le [of "length p" b]
  by (simp add: BufWrite_def Let_def)

lemma Cap_BufWrite_fits:
  "length (buf b) + length p \<le> capacity b \<Longrightarrow> off b \<le> length (buf b) \<Longrightarrow> 0 < Len b \<or> off b = 0 \<Longrightarrow>
     BufWrite p b = b\<lparr>buf := buf b @ p\<rparr>"
  by (auto simp: BufWrite_def grow_def Let_def Len_def)

lemma ReadFull_enough:
  assumes "0 < n" "n \<le> Len b"
  shows "ReadFull n b = (take n (Bytes b), None, b\<lparr>off := off b + n\<rparr>)"
proof -
  from assms have ne: "\<not> length (buf b) \<le> off b" by (simp add: Len_def)
  from assms have m: "min n (Len b) = n" by simp
  have t: "length (take n (Bytes b)) = n" using assms by (simp add: Bytes_def Len_def)
  have "readLoop n [] b = readLoop n (take n (Bytes b)) (b\<lparr>off := off b + n\<rparr>)"
    using assms ne m by (subst readLoop.simps) (simp add: BufRead_def Let_def)
  also have "\<dots> = (take n (Bytes b), None, b\<lparr>off := off b + n\<rparr>)"
    using t by (subst readLoop.simps) simp
  finally show ?thesis using t by (simp add: ReadFull_def)
qed

lemma ReadFull_empty:
  assumes "0 < n" "Len b = 0"
  shows "ReadFull n b = ([], Some EOF, Reset b)"
proof -
  from assms have e: "length (buf b) \<le> off b" by (simp add: Len_def)
  have "readLoop n [] b = ([], Some EOF, Reset b)"
    using assms e by (subst readLoop.simps) (simp add: BufRead_def)
  then show ?thesis using assms by (simp add: ReadFull_def)
qed

lemma ReadFull_short:
  assumes "0 < Len b" "Len b < n"
  shows "ReadFull n b = (Bytes b, Some ErrUnexpectedEOF, Reset (b\<lparr>off := off b + Len b\<rparr>))"
proof -
  from assms have ne: "\<not> length (buf b) \<le> off b" by (simp add: Len_def)
  from assms have m: "min n (Len b) = Len b" by simp
  have t: "take (Len b) (Bytes b) = Bytes b" by (simp add: Bytes_def Len_def)
  have l: "length (Bytes b) = Len b" by (simp add: Bytes_def Len_def)
  have "readLoop n [] b = readLoop n (Bytes b) (b\<lparr>off := off b + Len b\<rparr>)"
    using assms ne m t by (subst readLoop.simps) (simp add: BufRead_def Let_def)
  also have "\<dots> = (Bytes b, Some EOF, Reset (b\<lparr>off := off b + Len b\<rparr>))"
  proof -
    have c: "\<not> n \<le> length (Bytes b)" using assms l by simp
    have d: "0 < n - length (Bytes b)" using assms l by simp
    have e: "length (buf (b\<lparr>off := off b + Len b\<rparr>)) \<le> off (b\<lparr>off := off b + Len b\<rparr>)"
      by (simp add: Len_def)
    show ?thesis
      using c d e by (subst readLoop.simps) (simp add: BufRead_def)
  qed
  finally show ?thesis using assms l by (simp add: ReadFull_def)
qed

subsection \<open>The writer\<close>

text \<open>
  Claim C9. On a writer whose buffer reference has been released, \<open>Remaining\<close>
  dereferences the nil buffer and panics, while each of the five write operations
  answers the closed-writer error and leaves the writer as it is.
\<close>

theorem Remaining_released_panics:
  "Writer.buffer w = None \<Longrightarrow>
     Remaining w = Inl NilDereference \<and>
     WriteUint16 w v16 = (Some ErrClosedWriter, w) \<and>
     WriteUint64 w v64 = (Some ErrClosedWriter, w) \<and>
     WriteInt64 w v64 = (Some ErrClosedWriter, w) \<and>
     WriteFloat64 w v64 = (Some ErrClosedWriter, w) \<and>
     Write w bs = (Some ErrClosedWriter, w)"
  by (simp add: Remaining_def WriteUint16_def WriteUint64_def WriteInt64_def
      WriteFloat64_def Write_def)

theorem Remaining_released_panics_witness:
  "Writer.buffer \<lparr>Writer.buffer = None\<rparr> = None \<and>
   Remaining \<lparr>Writer.buffer = None\<rparr> = Inl NilDereference \<and>
   WriteUint16 \<lparr>Writer.buffer = None\<rparr> 7 = (Some ErrClosedWriter, \<lparr>Writer.buffer = None\<rparr>) \<and>
   Write \<lparr>Writer.buffer = None\<rparr> [1, 2] = (Some ErrClosedWriter, \<lparr>Writer.buffer = None\<rparr>)"
  using Remaining_released_panics [of "\<lparr>Writer.buffer = None\<rparr>" 7 0 "[1, 2]"]
  by simp

subsection \<open>Reading\<close>

lemma binaryRead64_ok:
  "8 \<le> Len b \<Longrightarrow> binaryRead64 b = (dec64 (take 8 (Bytes b)), None, b\<lparr>off := off b + 8\<rparr>)"
  by (simp add: binaryRead64_def ReadFull_enough)

lemma binaryRead64_short:
  "Len b < 8 \<Longrightarrow>
     binaryRead64 b =
       (0, Some (if Len b = 0 then EOF else ErrUnexpectedEOF),
        Reset (b\<lparr>off := off b + Len b\<rparr>))"
  by (cases "Len b = 0") (simp_all add: binaryRead64_def ReadFull_empty ReadFull_short Reset_def)

lemma binaryRead16_ok:
  "2 \<le> Len b \<Longrightarrow> binaryRead16 b = (dec16 (take 2 (Bytes b)), None, b\<lparr>off := off b + 2\<rparr>)"
  by (simp add: binaryRead16_def ReadFull_enough)

lemma binaryRead16_short:
  "Len b < 2 \<Longrightarrow>
     binaryRead16 b =
       (0, Some (if Len b = 0 then EOF else ErrUnexpectedEOF),
        Reset (b\<lparr>off := off b + Len b\<rparr>))"
  by (cases "Len b = 0") (simp_all add: binaryRead16_def ReadFull_empty ReadFull_short Reset_def)

lemma Bytes_off_add: "Bytes (b\<lparr>off := off b + k\<rparr>) = drop k (Bytes b)"
  by (simp add: Bytes_def add.commute)

lemma Len_off_add: "Len (b\<lparr>off := off b + k\<rparr>) = Len b - k"
  by (simp add: Len_def)

lemma Len_Bytes: "Len b = length (Bytes b)"
  by (simp add: Len_def Bytes_def)

text \<open>
  The buffer that \<open>Receive\<close> wraps in its reader holds the datagram, cut at the length
  of \<open>bx\<close>.
\<close>

lemma received_Bytes:
  assumes "off b1 \<le> length (buf b1)" "n = min (length dg) (length (Bytes b1))"
  shows "Bytes (Truncate n (b1\<lparr>buf := take (off b1) (buf b1) @ take n dg @ drop n (Bytes b1)\<rparr>))
         = take n dg"
  using assms by (auto simp: Truncate_def Bytes_def Reset_def)

lemma Receive_datagram:
  assumes "timeout \<le> 0 \<or> deadlineErr = None"
  shows "\<exists>b3. Bytes b3 = take (length (Bytes (fst (Next (newBuffer (protocol e)) (buffers e)))) + length (zero e)) dg \<and>
     Receive e timeout deadlineErr (Inr (dg, a)) =
       (let e1 = e\<lparr>buffers := snd (Next (newBuffer (protocol e)) (buffers e))\<rparr>;
            reader = \<lparr>Reader.buffer = Some b3\<rparr>
        in (case (if 0 < Hash (protocol e1) then protocolRead (protocol e1) reader
                  else (True, None, reader)) of
              (ok, err, reader') \<Rightarrow>
                if err \<noteq> None \<or> \<not> ok then (None, None, 0, err, e1)
                else if Sequenced (protocol e1)
                then (case sequenceRead e1 reader' of
                        (s, err', reader'') \<Rightarrow> (Some reader'', Some a, s, err', e1))
                else (Some reader', Some a, 0, None, e1)))"
proof -
  obtain b0 bs where nx: "Next (newBuffer (protocol e)) (buffers e) = (b0, bs)"
    by (cases "Next (newBuffer (protocol e)) (buffers e)")
  define b1 where "b1 = BufWrite (zero e) b0"
  define n where "n = min (length dg) (length (Bytes b1))"
  define b3 where "b3 = Truncate n (b1\<lparr>buf := take (off b1) (buf b1) @ take n dg @ drop n (Bytes b1)\<rparr>)"
  have o: "off b1 \<le> length (buf b1)" by (simp add: b1_def off_le_BufWrite)
  have "Bytes b3 = take n dg" unfolding b3_def using o n_def by (rule received_Bytes)
  moreover have "take n dg = take (length (Bytes b0) + length (zero e)) dg"
    by (simp add: n_def b1_def Bytes_BufWrite min_def)
  ultimately have B: "Bytes b3 = take (length (Bytes b0) + length (zero e)) dg" by simp
  have R: "Receive e timeout deadlineErr (Inr (dg, a)) =
       (let e1 = e\<lparr>buffers := bs\<rparr>;
            reader = \<lparr>Reader.buffer = Some b3\<rparr>
        in (case (if 0 < Hash (protocol e1) then protocolRead (protocol e1) reader
                  else (True, None, reader)) of
              (ok, err, reader') \<Rightarrow>
                if err \<noteq> None \<or> \<not> ok then (None, None, 0, err, e1)
                else if Sequenced (protocol e1)
                then (case sequenceRead e1 reader' of
                        (s, err', reader'') \<Rightarrow> (Some reader'', Some a, s, err', e1))
                else (Some reader', Some a, 0, None, e1)))"
    using assms nx unfolding Receive_def b3_def n_def b1_def
    by (auto simp: Let_def)
  show ?thesis
    apply (rule exI [of _ b3])
    using B R nx by simp
qed

lemma ReadUint64_ok:
  "Reader.buffer r = Some b \<Longrightarrow> 8 \<le> Len b \<Longrightarrow>
     ReadUint64 r = (dec64 (take 8 (Bytes b)), None, r\<lparr>Reader.buffer := Some (b\<lparr>off := off b + 8\<rparr>)\<rparr>)"
  by (simp add: ReadUint64_def binaryRead64_ok)

lemma ReadUint64_short:
  "Reader.buffer r = Some b \<Longrightarrow> Len b < 8 \<Longrightarrow>
     ReadUint64 r = (0, Some (if Len b = 0 then EOF else ErrUnexpectedEOF),
                     r\<lparr>Reader.buffer := Some (Reset (b\<lparr>off := off b + Len b\<rparr>))\<rparr>)"
  by (simp add: ReadUint64_def binaryRead64_short)


subsection \<open>Construction\<close>

lemma MaxPayload_unat: "unat MaxPayload = 65507"
  by (simp add: MaxPayload_def)


text \<open>
  Claim C7. \<open>NewEndpoint\<close> panics with "payload" exactly when the payload size is 0 or
  above 65507, with "hash" exactly when the payload size is valid, the filter hash is not
  zero and the payload size is below 8; and it panics at all exactly when one of these
  holds or the port is negative or the pool size is below one. So a valid descriptor with
  a port of at least 0 and a pool size of at least 1 passes every check.
\<close>

theorem NewEndpoint_panics:
  "(NewEndpoint (Some p) port pool resolveErr listenErr = Inl (Panic ''payload'')
      \<longleftrightarrow> unat (Payload p) = 0 \<or> 65507 < unat (Payload p)) \<and>
   (NewEndpoint (Some p) port pool resolveErr listenErr = Inl (Panic ''hash'')
      \<longleftrightarrow> 0 < unat (Payload p) \<and> unat (Payload p) \<le> 65507 \<and>
          Hash p \<noteq> 0 \<and> unat (Payload p) < 8) \<and>
   ((\<exists>x. NewEndpoint (Some p) port pool resolveErr listenErr = Inl x)
      \<longleftrightarrow> unat (Payload p) = 0 \<or> 65507 < unat (Payload p) \<or>
          (Hash p \<noteq> 0 \<and> unat (Payload p) < 8) \<or> port < 0 \<or> pool < 1)"
  apply (simp add: NewEndpoint_def word_less_nat_alt unat_eq_0 MaxPayload_unat split: option.splits)
  apply (auto simp: unat_gt_0 word_greater_zero_iff)
  done


theorem NewEndpoint_panics_witness:
  "NewEndpoint (Some \<lparr>Hash = 0, Sequenced = False, Payload = 0\<rparr>) 0 8 None None
     = Inl (Panic ''payload'') \<and>
   NewEndpoint (Some \<lparr>Hash = 5, Sequenced = False, Payload = 7\<rparr>) 0 8 None None
     = Inl (Panic ''hash'') \<and>
   (\<nexists>x. NewEndpoint (Some \<lparr>Hash = 5, Sequenced = False, Payload = 256\<rparr>) 0 8 None None = Inl x)"
  using NewEndpoint_panics [of "\<lparr>Hash = 0, Sequenced = False, Payload = 0\<rparr>" 0 8 None None]
    NewEndpoint_panics [of "\<lparr>Hash = 5, Sequenced = False, Payload = 7\<rparr>" 0 8 None None]
    NewEndpoint_panics [of "\<lparr>Hash = 5, Sequenced = False, Payload = 256\<rparr>" 0 8 None None]
  by simp

subsection \<open>Closing a reader\<close>

text \<open>
  Claim C8. Closing an open reader succeeds, clears the reader's buffer reference and
  hands the buffer to the pool of the endpoint (which keeps it, reset, unless the pool is
  full); closing the reader again answers the closed-reader error and changes neither
  the reader nor the endpoint, and so does closing any reader without a buffer.
\<close>

theorem Close_twice:
  "(Reader.buffer r = Some b \<longrightarrow>
      Close r e = (None, r\<lparr>Reader.buffer := None\<rparr>, e\<lparr>buffers := Recycle Reset b (buffers e)\<rparr>) \<and>
      (length (items (buffers e)) < limit (buffers e) \<longrightarrow>
         items (buffers (snd (snd (Close r e)))) = Reset b # items (buffers e)) \<and>
      Close (fst (snd (Close r e))) (snd (snd (Close r e)))
        = (Some ErrClosedReader, fst (snd (Close r e)), snd (snd (Close r e)))) \<and>
   (Reader.buffer r = None \<longrightarrow> Close r e = (Some ErrClosedReader, r, e))"
  by (simp add: Close_def Recycle_def)

theorem Close_twice_witness:
  "Close \<lparr>Reader.buffer = Some \<lparr>buf = [1, 2], off = 0, capacity = 64\<rparr>\<rparr>
         \<lparr>protocol = \<lparr>Hash = 0, Sequenced = False, Payload = 256\<rparr>, sequence = 0,
          zero = replicate 256 0, buffers = NewPool 8, writers = NewPool 8\<rparr>
     = (None, \<lparr>Reader.buffer = None\<rparr>,
        \<lparr>protocol = \<lparr>Hash = 0, Sequenced = False, Payload = 256\<rparr>, sequence = 0,
         zero = replicate 256 0,
         buffers = \<lparr>items = [\<lparr>buf = [], off = 0, capacity = 64\<rparr>], limit = 8\<rparr>,
         writers = NewPool 8\<rparr>) \<and>
   Close \<lparr>Reader.buffer = None\<rparr>
         \<lparr>protocol = \<lparr>Hash = 0, Sequenced = False, Payload = 256\<rparr>, sequence = 0,
          zero = replicate 256 0, buffers = NewPool 8, writers = NewPool 8\<rparr>
     = (Some ErrClosedReader, \<lparr>Reader.buffer = None\<rparr>,
        \<lparr>protocol = \<lparr>Hash = 0, Sequenced = False, Payload = 256\<rparr>, sequence = 0,
         zero = replicate 256 0, buffers = NewPool 8, writers = NewPool 8\<rparr>)"
  using Close_twice [of "\<lparr>Reader.buffer = Some \<lparr>buf = [1, 2], off = 0, capacity = 64\<rparr>\<rparr>"
      "\<lparr>buf = [1, 2], off = 0, capacity = 64\<rparr>"
      "\<lparr>protocol = \<lparr>Hash = 0, Sequenced = False, Payload = 256\<rparr>, sequence = 0,
        zero = replicate 256 0, buffers = NewPool 8, writers = NewPool 8\<rparr>"]
    Close_twice [of "\<lparr>Reader.buffer = None\<rparr>" "\<lparr>buf = [], off = 0, capacity = 0\<rparr>"
      "\<lparr>protocol = \<lparr>Hash = 0, Sequenced = False, Payload = 256\<rparr>, sequence = 0,
        zero = replicate 256 0, buffers = NewPool 8, writers = NewPool 8\<rparr>"]
  by (simp add: Recycle_def NewPool_def Reset_def)

subsection \<open>Receiving\<close>

text \<open>
  Claim C3. When the socket delivers a datagram of at least 8 bytes whose leading 8 bytes
  decode to a value other than the endpoint's non-zero filter hash, \<open>Receive\<close> returns a
  nil reader, a nil address, sequence 0 and a nil error. The endpoint's zero template
  holds at least 8 bytes, as \<open>NewEndpoint\<close> guarantees for a non-zero hash.
\<close>

theorem Receive_hash_mismatch:
  assumes "Hash (protocol e) \<noteq> 0" and "8 \<le> length (zero e)" and "8 \<le> length dg"
    and "dec64 (take 8 dg) \<noteq> Hash (protocol e)"
    and "timeout \<le> 0 \<or> deadlineErr = None"
  shows "Receive e timeout deadlineErr (Inr (dg, a)) =
           (None, None, 0, None, e\<lparr>buffers := snd (Next (newBuffer (protocol e)) (buffers e))\<rparr>)"
proof -
  from Receive_datagram [OF assms(5), of e dg a] obtain b3 where
    B: "Bytes b3 = take (length (Bytes (fst (Next (newBuffer (protocol e)) (buffers e)))) + length (zero e)) dg"
    and R: "Receive e timeout deadlineErr (Inr (dg, a)) =
       (let e1 = e\<lparr>buffers := snd (Next (newBuffer (protocol e)) (buffers e))\<rparr>;
            reader = \<lparr>Reader.buffer = Some b3\<rparr>
        in (case (if 0 < Hash (protocol e1) then protocolRead (protocol e1) reader
                  else (True, None, reader)) of
              (ok, err, reader') \<Rightarrow>
                if err \<noteq> None \<or> \<not> ok then (None, None, 0, err, e1)
                else if Sequenced (protocol e1)
                then (case sequenceRead e1 reader' of
                        (s, err', reader'') \<Rightarrow> (Some reader'', Some a, s, err', e1))
                else (Some reader', Some a, 0, None, e1)))"
    by blast
  have L: "8 \<le> Len b3" using B assms(2,3) by (simp add: Len_Bytes)
  have T: "take 8 (Bytes b3) = take 8 dg" using B assms(2) by (simp add: min_def)
  have h: "0 < Hash (protocol e)" using assms(1) by (simp add: word_greater_zero_iff)
  have P: "protocolRead (protocol e) \<lparr>Reader.buffer = Some b3\<rparr> =
             (False, None, \<lparr>Reader.buffer = Some (b3\<lparr>off := off b3 + 8\<rparr>)\<rparr>)"
    using L T assms(4) by (simp add: protocolRead_def ReadUint64_ok)
  show ?thesis using R P h by (simp add: Let_def)
qed


theorem Receive_hash_mismatch_witness:
  "Receive \<lparr>protocol = \<lparr>Hash = 7, Sequenced = False, Payload = 256\<rparr>, sequence = 0,
            zero = replicate 256 0, buffers = NewPool 8, writers = NewPool 8\<rparr>
           0 None (Inr ([0, 0, 0, 0, 0, 0, 0, 9, 1], ''peer''))
     = (None, None, 0, None,
        \<lparr>protocol = \<lparr>Hash = 7, Sequenced = False, Payload = 256\<rparr>, sequence = 0,
         zero = replicate 256 0, buffers = NewPool 8, writers = NewPool 8\<rparr>)"
  using Receive_hash_mismatch [of
      "\<lparr>protocol = \<lparr>Hash = 7, Sequenced = False, Payload = 256\<rparr>, sequence = 0,
        zero = replicate 256 0, buffers = NewPool 8, writers = NewPool 8\<rparr>"
      "[0, 0, 0, 0, 0, 0, 0, 9, 1]" 0 None "''peer''"]
  by (simp add: dec64_def Next_def NewPool_def)

text \<open>
  Claim C10. On a sequenced endpoint, a datagram that passes the hash check (or meets no
  hash) and then holds fewer than 8 bytes makes \<open>Receive\<close> return a reader that still holds
  its buffer, the sender's address and an error; a datagram too short for the hash itself
  gives a nil reader with the error.
\<close>

theorem Receive_short_sequence:
  assumes "Sequenced (protocol e)" and "timeout \<le> 0 \<or> deadlineErr = None"
  shows "((Hash (protocol e) = 0 \<and> length dg < 8 \<or>
           Hash (protocol e) \<noteq> 0 \<and> 8 \<le> length (zero e) \<and> 8 \<le> length dg \<and> length dg < 16 \<and>
             dec64 (take 8 dg) = Hash (protocol e)) \<longrightarrow>
          (\<exists>r b err. Receive e timeout deadlineErr (Inr (dg, a)) =
             (Some r, Some a, 0, Some err,
              e\<lparr>buffers := snd (Next (newBuffer (protocol e)) (buffers e))\<rparr>) \<and>
             Reader.buffer r = Some b)) \<and>
         (Hash (protocol e) \<noteq> 0 \<and> length dg < 8 \<longrightarrow>
          (\<exists>err. Receive e timeout deadlineErr (Inr (dg, a)) =
             (None, None, 0, Some err,
              e\<lparr>buffers := snd (Next (newBuffer (protocol e)) (buffers e))\<rparr>)))"
proof -
  from Receive_datagram [OF assms(2), of e dg a] obtain b3 where
    B: "Bytes b3 = take (length (Bytes (fst (Next (newBuffer (protocol e)) (buffers e)))) + length (zero e)) dg"
    and R: "Receive e timeout deadlineErr (Inr (dg, a)) =
       (let e1 = e\<lparr>buffers := snd (Next (newBuffer (protocol e)) (buffers e))\<rparr>;
            reader = \<lparr>Reader.buffer = Some b3\<rparr>
        in (case (if 0 < Hash (protocol e1) then protocolRead (protocol e1) reader
                  else (True, None, reader)) of
              (ok, err, reader') \<Rightarrow>
                if err \<noteq> None \<or> \<not> ok then (None, None, 0, err, e1)
                else if Sequenced (protocol e1)
                then (case sequenceRead e1 reader' of
                        (s, err', reader'') \<Rightarrow> (Some reader'', Some a, s, err', e1))
                else (Some reader', Some a, 0, None, e1)))"
    by blast
  have Lle: "Len b3 \<le> length dg" using B by (simp add: Len_Bytes)
  have c1: ?thesis if z: "Hash (protocol e) = 0"
  proof -
    have "length dg < 8 \<longrightarrow> Len b3 < 8" using Lle by simp
    then show ?thesis using R z assms(1)
      by (auto simp: Let_def sequenceRead_def ReadUint64_short)
  qed
  have c2: ?thesis if nz: "Hash (protocol e) \<noteq> 0"
  proof -
    have h: "0 < Hash (protocol e)" using nz by (simp add: word_greater_zero_iff)
    have short: "\<exists>err. Receive e timeout deadlineErr (Inr (dg, a)) =
             (None, None, 0, Some err,
              e\<lparr>buffers := snd (Next (newBuffer (protocol e)) (buffers e))\<rparr>)"
      if "length dg < 8"
    proof -
      have "Len b3 < 8" using Lle that by simp
      then show ?thesis using R h
        by (simp add: Let_def protocolRead_def ReadUint64_short)
    qed
    have pass: "\<exists>r b err. Receive e timeout deadlineErr (Inr (dg, a)) =
             (Some r, Some a, 0, Some err,
              e\<lparr>buffers := snd (Next (newBuffer (protocol e)) (buffers e))\<rparr>) \<and>
             Reader.buffer r = Some b"
      if a: "8 \<le> length (zero e)" "8 \<le> length dg" "length dg < 16"
        "dec64 (take 8 dg) = Hash (protocol e)"
    proof -
      have L: "8 \<le> Len b3" using B a(1,2) by (simp add: Len_Bytes)
      have T: "take 8 (Bytes b3) = take 8 dg" using B a(1) by (simp add: min_def)
      have P: "protocolRead (protocol e) \<lparr>Reader.buffer = Some b3\<rparr> =
             (True, None, \<lparr>Reader.buffer = Some (b3\<lparr>off := off b3 + 8\<rparr>)\<rparr>)"
        using L T a(4) by (simp add: protocolRead_def ReadUint64_ok)
      have "Len (b3\<lparr>off := off b3 + 8\<rparr>) < 8" using Lle a(3) by (simp add: Len_def)
      then show ?thesis using R P h assms(1)
        by (simp add: Let_def sequenceRead_def ReadUint64_short)
    qed
    show ?thesis using nz short pass by blast
  qed
  show ?thesis using c1 c2 by blast
qed

theorem Receive_short_sequence_witness:
  "\<exists>r b err.
     Receive \<lparr>protocol = \<lparr>Hash = 0, Sequenced = True, Payload = 256\<rparr>, sequence = 0,
              zero = replicate 256 0, buffers = NewPool 8, writers = NewPool 8\<rparr>
             0 None (Inr ([1, 2, 3], ''peer''))
       = (Some r, Some ''peer'', 0, Some err,
          \<lparr>protocol = \<lparr>Hash = 0, Sequenced = True, Payload = 256\<rparr>, sequence = 0,
           zero = replicate 256 0, buffers = NewPool 8, writers = NewPool 8\<rparr>) \<and>
     Reader.buffer r = Some b"
  using Receive_short_sequence [of
      "\<lparr>protocol = \<lparr>Hash = 0, Sequenced = True, Payload = 256\<rparr>, sequence = 0,
        zero = replicate 256 0, buffers = NewPool 8, writers = NewPool 8\<rparr>"
      0 None "[1, 2, 3]" "''peer''"]
  by (simp add: Next_def NewPool_def)

end
